theory Spec2Isabelle
  imports Main
begin

unbundle bit_operations_syntax

section \<open>Errors\<close>

text \<open>
  The Python sources raise built-in exceptions that differ only by their raise site and
  message.  Every raise site is one constructor:
  \<^item> \<open>CoordinateOutOfRange\<close>: \<^verbatim>\<open>ValueError("Row/Col out of range ...")\<close> in
    \<^verbatim>\<open>Board._validate_coords\<close> (board.py) and
    \<^verbatim>\<open>IndexError("Row and column must be within the board boundaries.")\<close> in the
    single-script \<^verbatim>\<open>Board.place_mark\<close>;
  \<^item> \<open>InvalidSymbol\<close>: \<^verbatim>\<open>ValueError("Invalid symbol ...")\<close> in
    \<^verbatim>\<open>Board._validate_symbol\<close> and \<^verbatim>\<open>Player.__init__\<close>, and the two
    \<^verbatim>\<open>ValueError\<close>s about the symbol in the single script;
  \<^item> \<open>CellOccupied\<close>: \<^verbatim>\<open>ValueError("Cell (r,c) is already occupied.")\<close>;
  \<^item> \<open>GameAlreadyOver\<close>: \<^verbatim>\<open>RuntimeError("Game is over. Reset to play again.")\<close>;
  \<^item> \<open>InvalidPlayerSetup\<close>: \<^verbatim>\<open>ValueError("Players must be created with symbols
    'X' and 'O' respectively.")\<close>;
  \<^item> \<open>NoMovesAvailable\<close>: \<^verbatim>\<open>RuntimeError("No moves available for the computer
    player.")\<close>;
  \<^item> \<open>SecondPlayerNameRequired\<close>: \<^verbatim>\<open>ValueError("Second player name required when
    not playing against the computer.")\<close> in \<^verbatim>\<open>create_console_game\<close>.
  A method that can raise returns a pair: the outcome (\<open>Inl\<close> the exception, \<open>Inr\<close> the
  returned value) and the object after the call, so that what a failed call leaves behind
  is part of the model.
\<close>

datatype error =
    CoordinateOutOfRange
  | InvalidSymbol
  | CellOccupied
  | GameAlreadyOver
  | InvalidPlayerSetup
  | NoMovesAvailable
  | SecondPlayerNameRequired

section \<open>Python helpers\<close>

text \<open>\<^verbatim>\<open>range(n)\<close> as the list of the integers \<open>0, ..., n - 1\<close>.\<close>

definition range_py :: "int \<Rightarrow> int list" where
  "range_py n = [0..n - 1]"

text \<open>
  \<^verbatim>\<open>g[r][c]\<close> and \<^verbatim>\<open>g[r][c] = v\<close> on a list of lists.  Every call below passes
  indices that come from \<^verbatim>\<open>range(SIZE)\<close> or have passed the bounds check, so Python's
  negative indexing and its IndexError never arise on a 3x3 grid.
\<close>

definition getitem2 :: "'a list list \<Rightarrow> int \<Rightarrow> int \<Rightarrow> 'a" where
  "getitem2 g r c = g ! nat r ! nat c"

definition setitem2 :: "'a list list \<Rightarrow> int \<Rightarrow> int \<Rightarrow> 'a \<Rightarrow> 'a list list" where
  "setitem2 g r c v = g[nat r := (g ! nat r)[nat c := v]]"

text \<open>\<^verbatim>\<open>sep.join(xs)\<close>.\<close>

fun join :: "string \<Rightarrow> string list \<Rightarrow> string" where
  "join sep [] = []"
| "join sep [x] = x"
| "join sep (x # y # ys) = x @ sep @ join sep (y # ys)"

section \<open>board.py: the board of the multi-file variant\<close>

definition SIZE :: int where
  "SIZE = 3"

definition VALID_SYMBOLS :: "string set" where
  "VALID_SYMBOLS = {''X'', ''O''}"

text \<open>A cell holds \<^verbatim>\<open>None\<close> or a string.\<close>

type_synonym cell = "string option"

record Board =
  grid :: "cell list list"

text \<open>\<^verbatim>\<open>[[None]*self.SIZE for _ in range(self.SIZE)]\<close>\<close>

definition Board_init :: Board where
  "Board_init = \<lparr>grid = map (\<lambda>_. replicate (nat SIZE) None) (range_py SIZE)\<rparr>"

definition Board_reset :: "Board \<Rightarrow> Board" where
  "Board_reset b =
     \<lparr>grid = fold (\<lambda>r g. fold (\<lambda>c g'. setitem2 g' r c None) (range_py SIZE) g)
               (range_py SIZE) (grid b)\<rparr>"

definition validate_coords :: "int \<Rightarrow> int \<Rightarrow> error + unit" where
  "validate_coords row col =
     (if \<not> (0 \<le> row \<and> row < SIZE \<and> 0 \<le> col \<and> col < SIZE)
      then Inl CoordinateOutOfRange else Inr ())"

definition validate_symbol :: "string \<Rightarrow> error + unit" where
  "validate_symbol symbol =
     (if symbol \<notin> VALID_SYMBOLS then Inl InvalidSymbol else Inr ())"

definition is_cell_empty :: "Board \<Rightarrow> int \<Rightarrow> int \<Rightarrow> error + bool" where
  "is_cell_empty b row col =
     (case validate_coords row col of
        Inl e \<Rightarrow> Inl e
      | Inr _ \<Rightarrow> Inr (getitem2 (grid b) row col = None))"

definition place_mark :: "Board \<Rightarrow> int \<Rightarrow> int \<Rightarrow> string \<Rightarrow> (error + unit) \<times> Board" where
  "place_mark b row col symbol =
     (case validate_coords row col of
        Inl e \<Rightarrow> (Inl e, b)
      | Inr _ \<Rightarrow>
     (case validate_symbol symbol of
        Inl e \<Rightarrow> (Inl e, b)
      | Inr _ \<Rightarrow>
     (case is_cell_empty b row col of
        Inl e \<Rightarrow> (Inl e, b)
      | Inr free \<Rightarrow>
          if \<not> free then (Inl CellOccupied, b)
          else (Inr (), b\<lparr>grid := setitem2 (grid b) row col (Some symbol)\<rparr>))))"

definition available_moves :: "Board \<Rightarrow> (int \<times> int) list" where
  "available_moves b =
     fold (\<lambda>r moves.
             fold (\<lambda>c moves'. if getitem2 (grid b) r c = None then moves' @ [(r, c)] else moves')
                  (range_py SIZE) moves)
          (range_py SIZE) []"

definition is_full :: "Board \<Rightarrow> bool" where
  "is_full b =
     list_all (\<lambda>(r, c). getitem2 (grid b) r c \<noteq> None)
       (concat (map (\<lambda>r. map (\<lambda>c. (r, c)) (range_py SIZE)) (range_py SIZE)))"

text \<open>\<^verbatim>\<open>self._grid[r][c] or " "\<close>: \<^verbatim>\<open>None\<close> and the empty string are falsy.\<close>

definition cell_text :: "cell \<Rightarrow> string" where
  "cell_text x = (case x of None \<Rightarrow> '' '' | Some s \<Rightarrow> if s = [] then '' '' else s)"

definition str_Board :: "Board \<Rightarrow> string" where
  "str_Board b =
     join [CHR 0x0A, CHR ''-'', CHR ''-'', CHR ''-'', CHR ''+'', CHR ''-'', CHR ''-'', CHR ''-'',
           CHR ''+'', CHR ''-'', CHR ''-'', CHR ''-'', CHR 0x0A]
       (map (\<lambda>r. '' '' @ join '' | '' (map (\<lambda>c. cell_text (getitem2 (grid b) r c)) (range_py SIZE)) @ '' '')
            (range_py SIZE))"

section \<open>player.py: the player of the multi-file variant\<close>





record Player =
  name :: string
  symbol :: string


definition make_move :: "Player \<Rightarrow> Board \<Rightarrow> int \<Rightarrow> int \<Rightarrow> (error + unit) \<times> Board" where
  "make_move p b row col = place_mark b row col (symbol p)"

section \<open>game.py: the engine of the multi-file variant\<close>

datatype GameState = IN_PROGRESS | WIN | DRAW

text \<open>A line is unpacked as \<^verbatim>\<open>a, b, c = line\<close>: a triple of coordinate pairs.\<close>

type_synonym line = "(int \<times> int) \<times> (int \<times> int) \<times> (int \<times> int)"

definition WIN_LINES :: "line list" where
  "WIN_LINES =
     [((0,0),(0,1),(0,2)),
      ((1,0),(1,1),(1,2)),
      ((2,0),(2,1),(2,2)),
      ((0,0),(1,0),(2,0)),
      ((0,1),(1,1),(2,1)),
      ((0,2),(1,2),(2,2)),
      ((0,0),(1,1),(2,2)),
      ((0,2),(1,1),(2,0))]"

record Game =
  board :: Board
  players :: "Player \<times> Player"
  turn_idx :: int
  state :: GameState
  winner_symbol :: "string option"

text \<open>\<^verbatim>\<open>Game(player_x, player_o, board=None)\<close>\<close>

definition Game_init :: "Player \<Rightarrow> Player \<Rightarrow> Board option \<Rightarrow> error + Game" where
  "Game_init player_x player_o b =
     (if symbol player_x \<noteq> ''X'' \<or> symbol player_o \<noteq> ''O'' then Inl InvalidPlayerSetup
      else Inr \<lparr>board = (case b of None \<Rightarrow> Board_init | Some b' \<Rightarrow> b'),
                players = (player_x, player_o),
                turn_idx = 0,
                state = IN_PROGRESS,
                winner_symbol = None\<rparr>)"

text \<open>\<^verbatim>\<open>self._players[self._turn_idx]\<close>; the index is private and only ever set to
  \<open>0\<close>, or toggled between \<open>0\<close> and \<open>1\<close>.\<close>

definition current_player :: "Game \<Rightarrow> Player" where
  "current_player g = [fst (players g), snd (players g)] ! nat (turn_idx g)"

definition cell_symbol :: "Game \<Rightarrow> int \<Rightarrow> int \<Rightarrow> cell" where
  "cell_symbol g r c = getitem2 (grid (board g)) r c"

text \<open>The loop over \<^verbatim>\<open>WIN_LINES\<close> with its early return.\<close>

fun first_line_winner :: "cell list list \<Rightarrow> line list \<Rightarrow> string option" where
  "first_line_winner gr [] = None"
| "first_line_winner gr ((a, b, c) # rest) =
     (let s1 = getitem2 gr (fst a) (snd a);
          s2 = getitem2 gr (fst b) (snd b);
          s3 = getitem2 gr (fst c) (snd c)
      in if s1 \<noteq> None \<and> s1 = s2 \<and> s2 = s3 then s1 else first_line_winner gr rest)"

definition find_winner_symbol :: "Game \<Rightarrow> string option" where
  "find_winner_symbol g =
     (let gr = map (\<lambda>r. map (\<lambda>c. cell_symbol g r c) (range_py SIZE)) (range_py SIZE)
      in first_line_winner gr WIN_LINES)"

definition update_state_after_move :: "Game \<Rightarrow> Game" where
  "update_state_after_move g =
     (let w = find_winner_symbol g in
      if w \<noteq> None then g\<lparr>state := WIN, winner_symbol := w\<rparr>
      else if is_full (board g) then g\<lparr>state := DRAW\<rparr>
      else g)"

definition swap_turn :: "Game \<Rightarrow> Game" where
  "swap_turn g = g\<lparr>turn_idx := turn_idx g XOR 1\<rparr>"

definition apply_move :: "Game \<Rightarrow> int \<Rightarrow> int \<Rightarrow> (error + unit) \<times> Game" where
  "apply_move g row col =
     (if state g \<noteq> IN_PROGRESS then (Inl GameAlreadyOver, g)
      else
        (case make_move (current_player g) (board g) row col of
           (Inl e, b') \<Rightarrow> (Inl e, g\<lparr>board := b'\<rparr>)
         | (Inr _, b') \<Rightarrow>
             (let g1 = update_state_after_move (g\<lparr>board := b'\<rparr>);
                  g2 = (if state g1 = IN_PROGRESS then swap_turn g1 else g1)
              in (Inr (), g2))))"

definition legal_moves :: "Game \<Rightarrow> (int \<times> int) list" where
  "legal_moves g = available_moves (board g)"

definition Game_reset :: "Game \<Rightarrow> Game" where
  "Game_reset g =
     g\<lparr>board := Board_reset (board g), turn_idx := 0, state := IN_PROGRESS, winner_symbol := None\<rparr>"

text \<open>A sequence of \<^verbatim>\<open>apply_move\<close> calls on one game, each exception caught by the
  caller as the loop of \<^verbatim>\<open>play_once\<close> in main.py does.\<close>

definition play :: "Game \<Rightarrow> (int \<times> int) list \<Rightarrow> Game" where
  "play g moves = fold (\<lambda>(r, c) g'. snd (apply_move g' r c)) moves g"

section \<open>revised\_tictactoe\_onescript.py: the single-script variant\<close>

text \<open>Here an empty cell is the string \<^verbatim>\<open>" "\<close>, the board carries its \<^verbatim>\<open>size\<close>, and an
  occupied cell is reported by returning \<^verbatim>\<open>False\<close>.\<close>

record Board_r =
  size_r :: int
  grid_r :: "string list list"

definition Board_r_init :: Board_r where
  "Board_r_init = \<lparr>size_r = 3, grid_r = map (\<lambda>_. map (\<lambda>_. '' '') (range_py 3)) (range_py 3)\<rparr>"

definition place_mark_r :: "Board_r \<Rightarrow> int \<Rightarrow> int \<Rightarrow> string \<Rightarrow> (error + bool) \<times> Board_r" where
  "place_mark_r b row col symb =
     (if symb \<notin> {''X'', ''O''} then (Inl InvalidSymbol, b)
      else if \<not> (0 \<le> row \<and> row < size_r b \<and> 0 \<le> col \<and> col < size_r b)
      then (Inl CoordinateOutOfRange, b)
      else if getitem2 (grid_r b) row col \<noteq> '' '' then (Inr False, b)
      else (Inr True, b\<lparr>grid_r := setitem2 (grid_r b) row col symb\<rparr>))"

definition is_full_r :: "Board_r \<Rightarrow> bool" where
  "is_full_r b = list_all (\<lambda>cell. cell \<noteq> '' '') (concat (grid_r b))"

text \<open>The dataclass constructor of \<^verbatim>\<open>Player\<close> followed by its \<^verbatim>\<open>__post_init__\<close>; the symbol
  is checked as given.\<close>

definition Player_r_init :: "string \<Rightarrow> string \<Rightarrow> error + Player" where
  "Player_r_init nm symb =
     (if symb \<notin> {''X'', ''O''} then Inl InvalidSymbol else Inr \<lparr>name = nm, symbol = symb\<rparr>)"

text \<open>\<^verbatim>\<open>make_move\<close> turns both exceptions of \<^verbatim>\<open>place_mark\<close> into \<^verbatim>\<open>False\<close>.\<close>

definition make_move_r :: "Player \<Rightarrow> Board_r \<Rightarrow> int \<Rightarrow> int \<Rightarrow> bool \<times> Board_r" where
  "make_move_r p b row col =
     (case place_mark_r b row col (symbol p) of
        (Inl e, b') \<Rightarrow> (False, b')
      | (Inr ok, b') \<Rightarrow> (ok, b'))"

record GameEngine =
  player_one :: Player
  player_two :: Player
  board_r :: Board_r
  current_index :: int
  winner :: "Player option"
  is_draw :: bool

text \<open>\<^verbatim>\<open>GameEngine(player_one, player_two)\<close>: the generated constructor stores its
  arguments and the field defaults; there is no \<^verbatim>\<open>__post_init__\<close> and no raise site.\<close>

definition GameEngine_init :: "Player \<Rightarrow> Player \<Rightarrow> error + GameEngine" where
  "GameEngine_init p1 p2 =
     Inr \<lparr>player_one = p1, player_two = p2, board_r = Board_r_init,
          current_index = 0, winner = None, is_draw = False\<rparr>"

definition current_player_r :: "GameEngine \<Rightarrow> Player" where
  "current_player_r e = [player_one e, player_two e] ! nat (current_index e)"

definition swap_turn_r :: "GameEngine \<Rightarrow> GameEngine" where
  "swap_turn_r e = e\<lparr>current_index := 1 - current_index e\<rparr>"

definition check_winner :: "GameEngine \<Rightarrow> string \<Rightarrow> bool" where
  "check_winner e symb =
     (let g = grid_r (board_r e);
          n = size_r (board_r e);
          lines = g
            @ map (\<lambda>c. map (\<lambda>r. getitem2 g r c) (range_py n)) (range_py n)
            @ [map (\<lambda>i. getitem2 g i i) (range_py n)]
            @ [map (\<lambda>i. getitem2 g i (n - 1 - i)) (range_py n)]
      in list_ex (list_all (\<lambda>cell. cell = symb)) lines)"

definition play_turn :: "GameEngine \<Rightarrow> int \<Rightarrow> int \<Rightarrow> bool \<times> GameEngine" where
  "play_turn e row col =
     (if winner e \<noteq> None \<or> is_draw e then (False, e)
      else
        (case make_move_r (current_player_r e) (board_r e) row col of
           (ok, b') \<Rightarrow>
             (let e1 = e\<lparr>board_r := b'\<rparr> in
              if \<not> ok then (False, e1)
              else if check_winner e1 (symbol (current_player_r e1))
              then (True, e1\<lparr>winner := Some (current_player_r e1)\<rparr>)
              else if is_full_r (board_r e1) then (True, e1\<lparr>is_draw := True\<rparr>)
              else (True, swap_turn_r e1))))"

text \<open>\<^verbatim>\<open>ComputerPlayer.choose_move\<close>.  \<^verbatim>\<open>random.choice(available)\<close> returns
  \<^verbatim>\<open>available[i]\<close> for an index \<open>i\<close> below \<^verbatim>\<open>len(available)\<close> taken from the random
  source; the parameter \<open>rnd\<close> is the number the source delivers, reduced to such an
  index.\<close>

definition choose_move :: "Board_r \<Rightarrow> nat \<Rightarrow> error + (int \<times> int)" where
  "choose_move b rnd =
     (let available =
            concat (map (\<lambda>row. concat (map (\<lambda>col. if getitem2 (grid_r b) row col = '' ''
                                                 then [(row, col)] else [])
                                           (range_py (size_r b))))
                        (range_py (size_r b)))
      in if available = [] then Inl NoMovesAvailable
         else Inr (available ! (rnd mod length available)))"

text \<open>A sequence of \<^verbatim>\<open>play_turn\<close> calls on one engine.\<close>

definition play_r :: "GameEngine \<Rightarrow> (int \<times> int) list \<Rightarrow> GameEngine" where
  "play_r e moves = fold (\<lambda>(r, c) e'. snd (play_turn e' r c)) moves e"

section \<open>Notions of the specification\<close>

text \<open>The shape every board has: the constructors build 3 rows of 3 cells and no method
  changes the shape.\<close>

definition wf_grid :: "'a list list \<Rightarrow> bool" where
  "wf_grid g = (length g = 3 \<and> list_all (\<lambda>row. length row = 3) g)"

text \<open>The nine coordinates in row-major order.\<close>

definition row_major :: "(int \<times> int) list" where
  "row_major = [(0,0),(0,1),(0,2),(1,0),(1,1),(1,2),(2,0),(2,1),(2,2)]"

text \<open>A line is completed by \<open>v\<close> when its three cells all hold \<open>v\<close>.\<close>

definition line_complete :: "'a list list \<Rightarrow> line \<Rightarrow> 'a \<Rightarrow> bool" where
  "line_complete g l v =
     (case l of ((r1, c1), (r2, c2), (r3, c3)) \<Rightarrow>
        getitem2 g r1 c1 = v \<and> getitem2 g r2 c2 = v \<and> getitem2 g r3 c3 = v)"

definition some_line :: "'a list list \<Rightarrow> 'a \<Rightarrow> bool" where
  "some_line g v = list_ex (\<lambda>l. line_complete g l v) WIN_LINES"

text \<open>Coordinates on the board.\<close>

definition in_board :: "int \<Rightarrow> int \<Rightarrow> bool" where
  "in_board r c = (0 \<le> r \<and> r < 3 \<and> 0 \<le> c \<and> c < 3)"

text \<open>\<open>g'\<close> is \<open>g\<close> with exactly the cell \<open>(row, col)\<close> set to \<open>v\<close>.\<close>

definition cells_after :: "'a list list \<Rightarrow> 'a list list \<Rightarrow> int \<Rightarrow> int \<Rightarrow> 'a \<Rightarrow> bool" where
  "cells_after g' g row col v =
     list_all (\<lambda>(i, j). getitem2 g' i j = (if (i, j) = (row, col) then v else getitem2 g i j))
       row_major"

text \<open>The number of occupied cells of a board.\<close>

definition occupied_count :: "Board \<Rightarrow> nat" where
  "occupied_count b = length (filter (\<lambda>x. x \<noteq> None) (concat (grid b)))"

text \<open>A line whose three coordinates lie on the board.\<close>

definition line_in_board :: "line \<Rightarrow> bool" where
  "line_in_board l =
     (case l of ((r1, c1), (r2, c2), (r3, c3)) \<Rightarrow>
        in_board r1 c1 \<and> in_board r2 c2 \<and> in_board r3 c3)"

text \<open>Every cell of the grid is occupied: none holds the value that marks an empty
  cell (\<^verbatim>\<open>None\<close> in board.py, \<^verbatim>\<open>" "\<close> in the single script).\<close>

definition all_occupied :: "'a \<Rightarrow> 'a list list \<Rightarrow> bool" where
  "all_occupied blank gr = list_all (\<lambda>x. x \<noteq> blank) (concat gr)"

text \<open>What holds of every game reached from a freshly constructed one: the board is 3x3,
  the turn index is 0 or 1, the players keep their symbols, a game in progress has neither
  a completed line nor a full board, a won game records the symbol of the player to move,
  and a drawn game has a full board without a completed line.\<close>

definition game_inv :: "Game \<Rightarrow> bool" where
  "game_inv g =
     (wf_grid (grid (board g)) \<and> (turn_idx g = 0 \<or> turn_idx g = 1)
      \<and> symbol (fst (players g)) = ''X'' \<and> symbol (snd (players g)) = ''O''
      \<and> (case state g of
            IN_PROGRESS \<Rightarrow>
              first_line_winner (grid (board g)) WIN_LINES = None
              \<and> \<not> is_full (board g) \<and> winner_symbol g = None
          | WIN \<Rightarrow>
              winner_symbol g = Some (symbol (current_player g))
              \<and> some_line (grid (board g)) (Some (symbol (current_player g)))
          | DRAW \<Rightarrow>
              first_line_winner (grid (board g)) WIN_LINES = None
              \<and> is_full (board g) \<and> winner_symbol g = None))"

text \<open>What holds of every single-script engine reached from a freshly constructed one.\<close>

definition engine_inv :: "GameEngine \<Rightarrow> bool" where
  "engine_inv e =
     (wf_grid (grid_r (board_r e)) \<and> size_r (board_r e) = 3
      \<and> (current_index e = 0 \<or> current_index e = 1)
      \<and> (winner e = None \<and> \<not> is_draw e \<longrightarrow>
            (\<forall>s. s \<noteq> '' '' \<longrightarrow> \<not> some_line (grid_r (board_r e)) s)
            \<and> \<not> is_full_r (board_r e))
      \<and> (\<forall>p. winner e = Some p \<longrightarrow>
            p = current_player_r e \<and> symbol p \<noteq> '' ''
            \<and> some_line (grid_r (board_r e)) (symbol p) \<and> \<not> is_draw e)
      \<and> (is_draw e \<longrightarrow>
            (\<forall>s. s \<noteq> '' '' \<longrightarrow> \<not> some_line (grid_r (board_r e)) s)
            \<and> is_full_r (board_r e)))"

text \<open>The players that \<^verbatim>\<open>play_once\<close> of main.py builds when both names are left blank,
  and the game it starts with them.\<close>

definition player_x :: Player where
  "player_x = \<lparr>name = ''Player X'', symbol = ''X''\<rparr>"

definition player_o :: Player where
  "player_o = \<lparr>name = ''Player O'', symbol = ''O''\<rparr>"

definition game0 :: Game where
  "game0 = \<lparr>board = Board_init, players = (player_x, player_o), turn_idx = 0,
            state = IN_PROGRESS, winner_symbol = None\<rparr>"

text \<open>The players and the engine of the single script's \<^verbatim>\<open>__main__\<close> block,
  \<^verbatim>\<open>create_console_game("Player 1", vs_computer=True)\<close>.\<close>

definition player_1 :: Player where
  "player_1 = \<lparr>name = ''Player 1'', symbol = ''X''\<rparr>"

definition computer :: Player where
  "computer = \<lparr>name = ''Computer'', symbol = ''O''\<rparr>"

definition engine0 :: GameEngine where
  "engine0 = \<lparr>player_one = player_1, player_two = computer, board_r = Board_r_init,
              current_index = 0, winner = None, is_draw = False\<rparr>"

text \<open>Two move sequences: four moves after which X wins by playing \<open>(0, 2)\<close>, and eight
  moves after which the ninth, \<open>(2, 2)\<close>, fills the board without a line.\<close>

definition win_moves :: "(int \<times> int) list" where
  "win_moves = [(0,0),(1,0),(0,1),(1,1)]"

definition draw_moves :: "(int \<times> int) list" where
  "draw_moves = [(0,0),(0,1),(0,2),(1,1),(1,0),(1,2),(2,1),(2,0)]"

text \<open>\<^verbatim>\<open>create_console_game(player_one_name, player_two_name=None, vs_computer=False)\<close>.
  The \<^verbatim>\<open>ConsoleGame\<close> it returns only wraps the engine, which is what the model returns;
  a \<^verbatim>\<open>ComputerPlayer\<close> has the fields of a \<^verbatim>\<open>Player\<close>.\<close>

definition create_console_game :: "string \<Rightarrow> string option \<Rightarrow> bool \<Rightarrow> error + GameEngine" where
  "create_console_game player_one_name player_two_name vs_computer =
     (case Player_r_init player_one_name ''X'' of
        Inl e \<Rightarrow> Inl e
      | Inr p1 \<Rightarrow>
          if vs_computer then
            (case Player_r_init
                    (case player_two_name of
                       None \<Rightarrow> ''Computer''
                     | Some n \<Rightarrow> if n = [] then ''Computer'' else n) ''O'' of
               Inl e \<Rightarrow> Inl e
             | Inr p2 \<Rightarrow> GameEngine_init p1 p2)
          else
            (case player_two_name of
               None \<Rightarrow> Inl SecondPlayerNameRequired
             | Some n \<Rightarrow>
                 (case Player_r_init n ''O'' of
                    Inl e \<Rightarrow> Inl e
                  | Inr p2 \<Rightarrow> GameEngine_init p1 p2)))"

section \<open>Basic facts\<close>

lemma range_py_SIZE: "range_py SIZE = [0, 1, 2]"
  by (simp add: range_py_def SIZE_def upto_rec1)

lemma range_py_3: "range_py 3 = [0, 1, 2]"
  by (simp add: range_py_def upto_rec1)

lemma length3: "length xs = 3 \<longleftrightarrow> (\<exists>a b c. xs = [a, b, c])"
  by (auto simp: length_Suc_conv numeral_3_eq_3)

lemma wf_grid_explicit:
  "wf_grid g \<longleftrightarrow> (\<exists>a b c d e f h i j. g = [[a, b, c], [d, e, f], [h, i, j]])"
  unfolding wf_grid_def length3 by (auto simp: length3)

lemma in_range3: "0 \<le> r \<and> r < (3::int) \<longleftrightarrow> r = 0 \<or> r = 1 \<or> r = 2"
  by auto

lemma wf_grid_setitem2: "wf_grid g \<Longrightarrow> wf_grid (setitem2 g r c v)"
proof -
  assume wf: "wf_grid g"
  show ?thesis
  proof (cases "nat r < length g")
    case True
    with wf show ?thesis
      by (auto simp: wf_grid_def setitem2_def list_all_length nth_list_update)
  next
    case False
    then show ?thesis using wf by (simp add: setitem2_def list_update_beyond)
  qed
qed

lemma Board_reset_wf: "wf_grid (grid b) \<Longrightarrow> Board_reset b = Board_init"
  by (auto simp: wf_grid_explicit Board_reset_def Board_init_def range_py_3 setitem2_def numeral_3_eq_3 SIZE_def)

lemma fold_append_if:
  "fold (\<lambda>c m. if P c then m @ [f c] else m) cs acc = acc @ map f (filter P cs)"
  by (induction cs arbitrary: acc) simp_all

lemma fold_append_concat:
  "fold (\<lambda>r m. m @ f r) rs acc = acc @ concat (map f rs)"
  by (induction rs arbitrary: acc) simp_all

lemma row_major_concat:
  "row_major = concat (map (\<lambda>r. map (Pair r) [0, 1, 2]) [0, 1, 2])"
  by (simp add: row_major_def)

lemma available_moves_filter:
  "available_moves b = filter (\<lambda>(r, c). getitem2 (grid b) r c = None) row_major"
proof -
  have "available_moves b =
      concat (map (\<lambda>r. map (Pair r) (filter (\<lambda>c. getitem2 (grid b) r c = None) [0, 1, 2])) [0, 1, 2])"
    unfolding available_moves_def range_py_SIZE fold_append_if fold_append_concat by simp
  also have "\<dots> = filter (\<lambda>(r, c). getitem2 (grid b) r c = None) row_major"
    unfolding row_major_concat filter_concat map_map filter_map comp_def by simp
  finally show ?thesis .
qed

lemma is_full_row_major:
  "is_full b = list_all (\<lambda>(r, c). getitem2 (grid b) r c \<noteq> None) row_major"
  by (simp add: is_full_def range_py_SIZE row_major_def)

lemma getitem2_setitem2:
  assumes "wf_grid g" "0 \<le> r" "r < 3" "0 \<le> c" "c < 3" "0 \<le> i" "i < 3" "0 \<le> j" "j < 3"
  shows "getitem2 (setitem2 g r c v) i j = (if i = r \<and> j = c then v else getitem2 g i j)"
proof -
  from assms(1) have "length g = 3" and "length (g ! nat r) = 3"
    using assms(2,3) by (auto simp: wf_grid_def list_all_length)
  then show ?thesis using assms(2-)
    by (auto simp: getitem2_def setitem2_def nth_list_update)
qed

lemma place_mark_cases:
  "place_mark b row col s =
     (if \<not> (0 \<le> row \<and> row < 3 \<and> 0 \<le> col \<and> col < 3) then (Inl CoordinateOutOfRange, b)
      else if s \<noteq> ''X'' \<and> s \<noteq> ''O'' then (Inl InvalidSymbol, b)
      else if getitem2 (grid b) row col \<noteq> None then (Inl CellOccupied, b)
      else (Inr (), b\<lparr>grid := setitem2 (grid b) row col (Some s)\<rparr>))"
  by (simp add: place_mark_def validate_coords_def validate_symbol_def is_cell_empty_def
      SIZE_def VALID_SYMBOLS_def)

lemma place_mark_r_cases:
  "size_r b = 3 \<Longrightarrow> place_mark_r b row col s =
     (if s \<noteq> ''X'' \<and> s \<noteq> ''O'' then (Inl InvalidSymbol, b)
      else if \<not> (0 \<le> row \<and> row < 3 \<and> 0 \<le> col \<and> col < 3) then (Inl CoordinateOutOfRange, b)
      else if getitem2 (grid_r b) row col \<noteq> '' '' then (Inr False, b)
      else (Inr True, b\<lparr>grid_r := setitem2 (grid_r b) row col s\<rparr>))"
  by (simp add: place_mark_r_def)

lemma cells_after_setitem2:
  assumes "wf_grid g" "in_board row col"
  shows "cells_after (setitem2 g row col v) g row col v"
proof -
  have "getitem2 (setitem2 g row col v) i j = (if (i, j) = (row, col) then v else getitem2 g i j)"
    if "in_board i j" for i j
    using getitem2_setitem2[of g row col i j v] assms that by (simp add: in_board_def)
  then show ?thesis
    by (simp add: cells_after_def row_major_def in_board_def)
qed

lemma place_mark_ok_iff:
  "fst (place_mark b row col s) = Inr ()
     \<longleftrightarrow> in_board row col \<and> s \<in> {''X'', ''O''} \<and> getitem2 (grid b) row col = None"
  by (auto simp add: place_mark_cases in_board_def)

lemma place_mark_ok_effect:
  assumes "wf_grid (grid b)" "fst (place_mark b row col s) = Inr ()"
  shows "snd (place_mark b row col s) = b\<lparr>grid := setitem2 (grid b) row col (Some s)\<rparr>"
    and "wf_grid (grid (snd (place_mark b row col s)))"
    and "cells_after (grid (snd (place_mark b row col s))) (grid b) row col (Some s)"
proof -
  from assms(2) have ok: "in_board row col" "s \<in> {''X'', ''O''}" "getitem2 (grid b) row col = None"
    by (simp_all add: place_mark_ok_iff)
  then show 1: "snd (place_mark b row col s) = b\<lparr>grid := setitem2 (grid b) row col (Some s)\<rparr>"
    by (auto simp add: place_mark_cases in_board_def)
  show "wf_grid (grid (snd (place_mark b row col s)))"
    by (simp add: 1 wf_grid_setitem2 assms(1))
  show "cells_after (grid (snd (place_mark b row col s))) (grid b) row col (Some s)"
    by (simp add: 1 cells_after_setitem2 assms(1) ok(1))
qed

lemma place_mark_fail_unchanged:
  "fst (place_mark b row col s) \<noteq> Inr () \<Longrightarrow> snd (place_mark b row col s) = b"
  by (auto simp add: place_mark_cases split: if_splits)


lemma place_mark_r_ok_iff:
  "size_r b = 3 \<Longrightarrow> fst (place_mark_r b row col s) = Inr True
     \<longleftrightarrow> in_board row col \<and> s \<in> {''X'', ''O''} \<and> getitem2 (grid_r b) row col = '' ''"
  by (auto simp add: place_mark_r_cases in_board_def)

lemma place_mark_r_ok_effect:
  assumes "wf_grid (grid_r b)" "size_r b = 3" "fst (place_mark_r b row col s) = Inr True"
  shows "snd (place_mark_r b row col s) = b\<lparr>grid_r := setitem2 (grid_r b) row col s\<rparr>"
    and "wf_grid (grid_r (snd (place_mark_r b row col s)))"
    and "size_r (snd (place_mark_r b row col s)) = 3"
    and "cells_after (grid_r (snd (place_mark_r b row col s))) (grid_r b) row col s"
proof -
  from assms(2,3) have ok: "in_board row col" "s \<in> {''X'', ''O''}" "getitem2 (grid_r b) row col = '' ''"
    by (simp_all add: place_mark_r_ok_iff)
  then show 1: "snd (place_mark_r b row col s) = b\<lparr>grid_r := setitem2 (grid_r b) row col s\<rparr>"
    using assms(2) by (auto simp add: place_mark_r_cases in_board_def)
  show "wf_grid (grid_r (snd (place_mark_r b row col s)))"
    by (simp add: 1 wf_grid_setitem2 assms(1))
  show "size_r (snd (place_mark_r b row col s)) = 3"
    by (simp add: 1 assms(2))
  show "cells_after (grid_r (snd (place_mark_r b row col s))) (grid_r b) row col s"
    by (simp add: 1 cells_after_setitem2 assms(1) ok(1))
qed

lemma place_mark_r_fail_unchanged:
  "fst (place_mark_r b row col s) \<noteq> Inr True \<Longrightarrow> snd (place_mark_r b row col s) = b"
  by (auto simp add: place_mark_r_def split: if_splits)


section \<open>Placing a mark\<close>

lemma grid_Board_init: "grid Board_init = [[None, None, None], [None, None, None], [None, None, None]]"
  by (simp add: Board_init_def range_py_SIZE) (simp add: SIZE_def numeral_3_eq_3)

lemma wf_Board_init: "wf_grid (grid Board_init)"
  by (simp add: grid_Board_init wf_grid_def)

lemma Board_r_init_eq:
  "Board_r_init = \<lparr>size_r = 3, grid_r = [['' '', '' '', '' ''], ['' '', '' '', '' ''], ['' '', '' '', '' '']]\<rparr>"
  by (simp add: Board_r_init_def range_py_3)

lemma wf_Board_r_init: "wf_grid (grid_r Board_r_init)" "size_r Board_r_init = 3"
  by (simp_all add: Board_r_init_eq wf_grid_def)



section \<open>Available moves\<close>

lemma set_row_major: "(r, c) \<in> set row_major \<longleftrightarrow> in_board r c"
proof -
  have "in_board r c \<longleftrightarrow> (r = 0 \<or> r = 1 \<or> r = 2) \<and> (c = 0 \<or> c = 1 \<or> c = 2)"
    using in_range3[of r] in_range3[of c] unfolding in_board_def by blast
  then show ?thesis by (auto simp: row_major_def)
qed

lemma cells_row_major:
  "wf_grid g \<Longrightarrow> map (\<lambda>(r, c). getitem2 g r c) row_major = concat g"
  by (auto simp: wf_grid_explicit row_major_def getitem2_def)

lemma length_filter_row_major:
  assumes "wf_grid g"
  shows "length (filter (\<lambda>(r, c). P (getitem2 g r c)) row_major) = length (filter P (concat g))"
proof -
  have "filter P (concat g) = filter P (map (\<lambda>(r, c). getitem2 g r c) row_major)"
    using assms by (simp add: cells_row_major)
  also have "\<dots> = map (\<lambda>(r, c). getitem2 g r c) (filter (P \<circ> (\<lambda>(r, c). getitem2 g r c)) row_major)"
    by (simp only: filter_map)
  finally have "length (filter P (concat g)) =
      length (filter (P \<circ> (\<lambda>(r, c). getitem2 g r c)) row_major)"
    by simp
  moreover have "(P \<circ> (\<lambda>(r, c). getitem2 g r c)) = (\<lambda>(r, c). P (getitem2 g r c))"
    by (simp add: fun_eq_iff)
  ultimately show ?thesis by simp
qed

lemma length_concat_wf: "wf_grid g \<Longrightarrow> length (concat g) = 9"
  by (auto simp: wf_grid_explicit)

lemma available_plus_occupied:
  assumes "wf_grid (grid b)"
  shows "length (available_moves b) + occupied_count b = 9"
proof -
  have "length (available_moves b) = length (filter (\<lambda>x. x = None) (concat (grid b)))"
    using length_filter_row_major[OF assms, of "\<lambda>x. x = None"]
    by (simp add: available_moves_filter)
  then have "length (available_moves b) + occupied_count b = length (concat (grid b))"
    using sum_length_filter_compl[of "\<lambda>x. x = None" "concat (grid b)"]
    by (simp add: occupied_count_def comp_def)
  then show ?thesis using assms by (simp add: length_concat_wf)
qed

text \<open>
  Claim C6.  On every 3x3 board \<^verbatim>\<open>available_moves()\<close> returns exactly the coordinates of
  the empty cells, in row-major order (the row-major list of the nine coordinates with
  the occupied ones removed), and the length of that list plus the number of occupied
  cells is 9.
\<close>

theorem available_moves_row_major:
  assumes "wf_grid (grid b)"
  shows "available_moves b = filter (\<lambda>(r, c). getitem2 (grid b) r c = None) row_major
       \<and> set (available_moves b) = {(r, c). in_board r c \<and> getitem2 (grid b) r c = None}
       \<and> length (available_moves b) + occupied_count b = 9"
proof -
  have "set (available_moves b) = {(r, c). in_board r c \<and> getitem2 (grid b) r c = None}"
    by (auto simp: available_moves_filter set_row_major)
  then show ?thesis
    using available_moves_filter[of b] available_plus_occupied[OF assms] by simp
qed

theorem available_moves_row_major_witness:
  "wf_grid (grid (snd (place_mark Board_init 1 1 ''X'')))
   \<and> available_moves (snd (place_mark Board_init 1 1 ''X''))
       = [(0,0),(0,1),(0,2),(1,0),(1,2),(2,0),(2,1),(2,2)]
   \<and> occupied_count (snd (place_mark Board_init 1 1 ''X'')) = 1"
proof -
  have b: "snd (place_mark Board_init 1 1 ''X'')
      = \<lparr>grid = [[None, None, None], [None, Some ''X'', None], [None, None, None]]\<rparr>"
    by (simp add: place_mark_cases grid_Board_init getitem2_def setitem2_def)
  have wf: "wf_grid (grid (snd (place_mark Board_init 1 1 ''X'')))"
    by (simp add: b wf_grid_def)
  have f: "filter (\<lambda>(r, c). getitem2 (grid (snd (place_mark Board_init 1 1 ''X''))) r c = None) row_major
      = [(0,0),(0,1),(0,2),(1,0),(1,2),(2,0),(2,1),(2,2)]"
    by (simp add: b row_major_def getitem2_def)
  note t = available_moves_row_major[OF wf]
  from t f have av: "available_moves (snd (place_mark Board_init 1 1 ''X''))
      = [(0,0),(0,1),(0,2),(1,0),(1,2),(2,0),(2,1),(2,2)]"
    by (elim conjE) (rule trans)
  from t have n: "length (available_moves (snd (place_mark Board_init 1 1 ''X'')))
      + occupied_count (snd (place_mark Board_init 1 1 ''X'')) = 9"
    by (elim conjE)
  from n have "occupied_count (snd (place_mark Board_init 1 1 ''X'')) = 1"
    unfolding av by simp
  with av wf show ?thesis by simp
qed

section \<open>Player construction\<close>










section \<open>Lines\<close>

lemma WIN_LINES_in_board: "l \<in> set WIN_LINES \<Longrightarrow> line_in_board l"
  by (auto simp: WIN_LINES_def line_in_board_def in_board_def)

lemma getitem2_setitem2_in_board:
  assumes "wf_grid g" "in_board r c" "in_board i j"
  shows "getitem2 (setitem2 g r c v) i j = (if i = r \<and> j = c then v else getitem2 g i j)"
  using getitem2_setitem2[of g r c i j v] assms by (simp add: in_board_def)

lemma line_complete_setitem2:
  assumes "wf_grid g" "in_board r c" "line_in_board l" "line_complete (setitem2 g r c v) l w"
  shows "w = v \<or> line_complete g l w"
proof -
  obtain r1 c1 r2 c2 r3 c3 where l: "l = ((r1, c1), (r2, c2), (r3, c3))"
    by (metis prod.exhaust)
  from assms(3) have ib: "in_board r1 c1" "in_board r2 c2" "in_board r3 c3"
    by (simp_all add: l line_in_board_def)
  note g = getitem2_setitem2_in_board[OF assms(1,2)]
  from assms(4) have "getitem2 (setitem2 g r c v) r1 c1 = w"
    "getitem2 (setitem2 g r c v) r2 c2 = w" "getitem2 (setitem2 g r c v) r3 c3 = w"
    by (simp_all add: l line_complete_def)
  then show ?thesis
    unfolding g[OF ib(1)] g[OF ib(2)] g[OF ib(3)] l line_complete_def
    by (auto split: if_splits)
qed

lemma some_line_setitem2:
  assumes "wf_grid g" "in_board r c" "some_line (setitem2 g r c v) w"
  shows "w = v \<or> some_line g w"
proof -
  from assms(3) obtain l where l: "l \<in> set WIN_LINES" "line_complete (setitem2 g r c v) l w"
    by (auto simp: some_line_def list_ex_iff)
  from line_complete_setitem2[OF assms(1,2) WIN_LINES_in_board[OF l(1)] l(2)]
  show ?thesis using l(1) by (auto simp: some_line_def list_ex_iff)
qed

lemma first_line_winner_None:
  "first_line_winner gr ls = None \<longleftrightarrow> (\<forall>l \<in> set ls. \<forall>s. \<not> line_complete gr l (Some s))"
  by (induction gr ls rule: first_line_winner.induct)
     (auto simp: line_complete_def Let_def)

lemma first_line_winner_Some:
  "first_line_winner gr ls = Some s \<Longrightarrow> \<exists>l \<in> set ls. line_complete gr l (Some s)"
  by (induction gr ls rule: first_line_winner.induct)
     (auto simp: line_complete_def Let_def split: if_splits)

lemma first_line_winner_WIN_LINES_None:
  "first_line_winner gr WIN_LINES = None \<longleftrightarrow> (\<forall>s. \<not> some_line gr (Some s))"
  by (auto simp: first_line_winner_None some_line_def list_ex_iff)

lemma first_line_winner_WIN_LINES_Some:
  "first_line_winner gr WIN_LINES = Some s \<Longrightarrow> some_line gr (Some s)"
  by (auto dest: first_line_winner_Some simp: some_line_def list_ex_iff)

lemma first_line_winner_cong:
  assumes "\<And>l. l \<in> set ls \<Longrightarrow> line_in_board l"
    and "\<And>r c. in_board r c \<Longrightarrow> getitem2 g1 r c = getitem2 g2 r c"
  shows "first_line_winner g1 ls = first_line_winner g2 ls"
  using assms(1)
proof (induction ls)
  case Nil
  then show ?case by simp
next
  case (Cons l ls)
  obtain r1 c1 r2 c2 r3 c3 where l: "l = ((r1, c1), (r2, c2), (r3, c3))"
    by (metis prod.exhaust)
  from Cons.prems[of l] have "in_board r1 c1" "in_board r2 c2" "in_board r3 c3"
    by (simp_all add: l line_in_board_def)
  then have "getitem2 g1 r1 c1 = getitem2 g2 r1 c1" "getitem2 g1 r2 c2 = getitem2 g2 r2 c2"
    "getitem2 g1 r3 c3 = getitem2 g2 r3 c3"
    by (simp_all add: assms(2))
  moreover have "first_line_winner g1 ls = first_line_winner g2 ls"
    using Cons by simp
  ultimately show ?case by (simp only: l first_line_winner.simps fst_conv snd_conv)
qed

lemma copy_getitem2:
  assumes "in_board r c"
  shows "getitem2 (map (\<lambda>r. map (\<lambda>c. f r c) [0, 1, 2]) [0, 1, 2]) r c = f r c"
proof -
  from assms have "r = 0 \<or> r = 1 \<or> r = 2" "c = 0 \<or> c = 1 \<or> c = 2"
    using in_range3[of r] in_range3[of c] by (simp_all add: in_board_def)
  then show ?thesis by (auto simp: getitem2_def)
qed

lemma find_winner_symbol_eq:
  "find_winner_symbol g = first_line_winner (grid (board g)) WIN_LINES"
  unfolding find_winner_symbol_def Let_def range_py_SIZE cell_symbol_def
  by (rule first_line_winner_cong) (simp_all only: WIN_LINES_in_board copy_getitem2)


section \<open>Moves of the multi-file engine\<close>

lemma apply_move_over:
  "state g \<noteq> IN_PROGRESS \<Longrightarrow> apply_move g row col = (Inl GameAlreadyOver, g)"
  by (simp add: apply_move_def)

lemma apply_move_ok:
  assumes "fst (apply_move g row col) = Inr ()"
  shows "state g = IN_PROGRESS"
    and "fst (place_mark (board g) row col (symbol (current_player g))) = Inr ()"
    and "snd (apply_move g row col) =
          (let g1 = update_state_after_move
                      (g\<lparr>board := snd (place_mark (board g) row col (symbol (current_player g)))\<rparr>)
           in if state g1 = IN_PROGRESS then swap_turn g1 else g1)"
  using assms
  by (auto simp: apply_move_def make_move_def Let_def split: if_splits prod.splits sum.splits)

lemma apply_move_fail:
  assumes "fst (apply_move g row col) \<noteq> Inr ()"
  shows "snd (apply_move g row col) = g"
proof (cases "state g = IN_PROGRESS")
  case False
  then show ?thesis by (simp add: apply_move_over)
next
  case True
  obtain res b' where pm: "place_mark (board g) row col (symbol (current_player g)) = (res, b')"
    by (cases "place_mark (board g) row col (symbol (current_player g))")
  with assms True have "res \<noteq> Inr ()"
    by (auto simp: apply_move_def make_move_def Let_def split: sum.splits)
  with pm have "b' = board g"
    using place_mark_fail_unchanged[of "board g" row col "symbol (current_player g)"] by simp
  with pm True \<open>res \<noteq> Inr ()\<close> show ?thesis
    by (auto simp: apply_move_def make_move_def split: sum.splits)
qed

lemma apply_move_fail_error:
  assumes "fst (apply_move g row col) \<noteq> Inr ()"
  shows "fst (apply_move g row col) =
     (if state g \<noteq> IN_PROGRESS then Inl GameAlreadyOver
      else fst (place_mark (board g) row col (symbol (current_player g))))"
  using assms
  by (auto simp: apply_move_def make_move_def Let_def split: if_splits prod.splits sum.splits)

lemma update_state_after_move_cases:
  "update_state_after_move g =
     (case first_line_winner (grid (board g)) WIN_LINES of
        Some w \<Rightarrow> g\<lparr>state := WIN, winner_symbol := Some w\<rparr>
      | None \<Rightarrow> if is_full (board g) then g\<lparr>state := DRAW\<rparr> else g)"
  by (simp add: update_state_after_move_def find_winner_symbol_eq Let_def split: option.splits)

lemma current_player_simps:
  "turn_idx g = 0 \<Longrightarrow> current_player g = fst (players g)"
  "turn_idx g = 1 \<Longrightarrow> current_player g = snd (players g)"
  by (simp_all add: current_player_def)

lemma xor_one_01: "(0::int) XOR 1 = 1" "(1::int) XOR 1 = 0"
  by simp_all

lemma apply_move_step:
  assumes inv: "game_inv g" and ok: "fst (apply_move g row col) = Inr ()"
  shows "state g = IN_PROGRESS"
    and "in_board row col"
    and "getitem2 (grid (board g)) row col = None"
    and "\<And>s. some_line (setitem2 (grid (board g)) row col (Some (symbol (current_player g)))) (Some s)
           \<Longrightarrow> s = symbol (current_player g)"
    and "snd (apply_move g row col) =
          (let gr' = setitem2 (grid (board g)) row col (Some (symbol (current_player g)));
               g1 = g\<lparr>board := \<lparr>grid = gr'\<rparr>\<rparr>
           in if some_line gr' (Some (symbol (current_player g)))
              then g1\<lparr>state := WIN, winner_symbol := Some (symbol (current_player g))\<rparr>
              else if is_full \<lparr>grid = gr'\<rparr> then g1\<lparr>state := DRAW\<rparr>
              else g1\<lparr>turn_idx := turn_idx g XOR 1\<rparr>)"
proof -
  let ?sym = "symbol (current_player g)"
  let ?gr = "setitem2 (grid (board g)) row col (Some ?sym)"
  note am = apply_move_ok[OF ok]
  show ip: "state g = IN_PROGRESS" by (rule am(1))
  from am(2) show ib: "in_board row col" and emp: "getitem2 (grid (board g)) row col = None"
    by (simp_all add: place_mark_ok_iff)
  from inv have wf: "wf_grid (grid (board g))" by (simp add: game_inv_def)
  from inv ip have noline: "\<And>s. \<not> some_line (grid (board g)) (Some s)"
    by (simp add: game_inv_def first_line_winner_WIN_LINES_None)
  show only: "s = ?sym" if "some_line ?gr (Some s)" for s
    using some_line_setitem2[OF wf ib that] noline by simp
  have b': "snd (place_mark (board g) row col ?sym) = \<lparr>grid = ?gr\<rparr>"
    using place_mark_ok_effect(1)[OF wf am(2)] by simp
  show "snd (apply_move g row col) =
          (let gr' = ?gr; g1 = g\<lparr>board := \<lparr>grid = gr'\<rparr>\<rparr>
           in if some_line gr' (Some ?sym)
              then g1\<lparr>state := WIN, winner_symbol := Some ?sym\<rparr>
              else if is_full \<lparr>grid = gr'\<rparr> then g1\<lparr>state := DRAW\<rparr>
              else g1\<lparr>turn_idx := turn_idx g XOR 1\<rparr>)"
  proof (cases "first_line_winner ?gr WIN_LINES")
    case None
    then have "\<not> some_line ?gr (Some ?sym)"
      by (simp add: first_line_winner_WIN_LINES_None)
    with None ip show ?thesis
      unfolding am(3) b'
      by (simp add: update_state_after_move_cases Let_def swap_turn_def)
  next
    case (Some w)
    then have "some_line ?gr (Some w)" by (rule first_line_winner_WIN_LINES_Some)
    moreover from this have "w = ?sym" by (rule only)
    ultimately show ?thesis using Some
      unfolding am(3) b'
      by (simp add: update_state_after_move_cases Let_def)
  qed
qed

lemma game_inv_apply_move:
  assumes "game_inv g"
  shows "game_inv (snd (apply_move g row col))"
proof (cases "fst (apply_move g row col) = Inr ()")
  case False
  then show ?thesis using assms by (simp add: apply_move_fail)
next
  case True
  let ?sym = "symbol (current_player g)"
  let ?gr = "setitem2 (grid (board g)) row col (Some ?sym)"
  note st = apply_move_step[OF assms True]
  from assms have wf: "wf_grid ?gr" and idx: "turn_idx g = 0 \<or> turn_idx g = 1"
    and sy: "symbol (fst (players g)) = ''X''" "symbol (snd (players g)) = ''O''"
    by (simp_all add: game_inv_def wf_grid_setitem2)
  show ?thesis
  proof (cases "some_line ?gr (Some ?sym)")
    case True
    then show ?thesis
      unfolding st(5) using wf idx sy
      by (simp add: game_inv_def Let_def current_player_def)
  next
    case False
    with st(4) have none: "first_line_winner ?gr WIN_LINES = None"
      by (auto simp: first_line_winner_WIN_LINES_None)
    from idx have idx': "turn_idx g XOR 1 = 0 \<or> turn_idx g XOR 1 = 1"
      by auto
    show ?thesis
      unfolding st(5) using wf idx' sy False none st(1) assms
      by (simp add: game_inv_def Let_def)
  qed
qed

lemma game_inv_init:
  assumes "Game_init px po None = Inr g"
  shows "game_inv g"
proof -
  from assms have g: "g = \<lparr>board = Board_init, players = (px, po), turn_idx = 0,
      state = IN_PROGRESS, winner_symbol = None\<rparr>"
    and sy: "symbol px = ''X''" "symbol po = ''O''"
    by (auto simp: Game_init_def split: if_splits)
  have "first_line_winner (grid Board_init) WIN_LINES = None"
    by (simp add: first_line_winner_None grid_Board_init WIN_LINES_def line_complete_def getitem2_def)
  moreover have "\<not> is_full Board_init"
    by (simp add: is_full_row_major row_major_def grid_Board_init getitem2_def)
  ultimately show ?thesis
    unfolding g using sy wf_Board_init by (simp add: game_inv_def)
qed

lemma play_snoc: "play g (ms @ [(r, c)]) = snd (apply_move (play g ms) r c)"
  by (simp add: play_def)

lemma game_inv_play: "game_inv g \<Longrightarrow> game_inv (play g ms)"
proof (induction ms rule: rev_induct)
  case Nil
  then show ?case by (simp add: play_def)
next
  case (snoc m ms)
  obtain r c where m: "m = (r, c)" by (cases m)
  from snoc show ?case unfolding m play_snoc by (simp add: game_inv_apply_move)
qed

section \<open>Moves of the single-script engine\<close>

lemma check_winner_some_line:
  assumes "wf_grid (grid_r (board_r e))" "size_r (board_r e) = 3"
  shows "check_winner e s = some_line (grid_r (board_r e)) s"
proof -
  from assms(1) obtain a b c d e' f h i j
    where g: "grid_r (board_r e) = [[a, b, c], [d, e', f], [h, i, j]]"
    by (auto simp: wf_grid_explicit)
  have "check_winner e s =
      (a = s \<and> b = s \<and> c = s \<or> d = s \<and> e' = s \<and> f = s \<or> h = s \<and> i = s \<and> j = s
       \<or> a = s \<and> d = s \<and> h = s \<or> b = s \<and> e' = s \<and> i = s \<or> c = s \<and> f = s \<and> j = s
       \<or> a = s \<and> e' = s \<and> j = s \<or> c = s \<and> e' = s \<and> h = s)"
    unfolding check_winner_def assms(2) g range_py_3 Let_def getitem2_def
    by simp
  moreover have "some_line (grid_r (board_r e)) s =
      (a = s \<and> b = s \<and> c = s \<or> d = s \<and> e' = s \<and> f = s \<or> h = s \<and> i = s \<and> j = s
       \<or> a = s \<and> d = s \<and> h = s \<or> b = s \<and> e' = s \<and> i = s \<or> c = s \<and> f = s \<and> j = s
       \<or> a = s \<and> e' = s \<and> j = s \<or> c = s \<and> e' = s \<and> h = s)"
    unfolding some_line_def g WIN_LINES_def line_complete_def getitem2_def
    by simp
  ultimately show ?thesis by simp
qed

lemma is_full_r_all_occupied: "is_full_r b = all_occupied '' '' (grid_r b)"
  by (simp add: is_full_r_def all_occupied_def)

lemma current_player_r_board [simp]:
  "current_player_r (e\<lparr>board_r := b\<rparr>) = current_player_r e"
  by (simp add: current_player_r_def)

lemma play_turn_over:
  "winner e \<noteq> None \<or> is_draw e \<Longrightarrow> play_turn e row col = (False, e)"
  by (simp add: play_turn_def)

lemma play_turn_fail:
  assumes "\<not> fst (play_turn e row col)"
  shows "snd (play_turn e row col) = e"
proof (cases "winner e \<noteq> None \<or> is_draw e")
  case True
  then show ?thesis by (simp add: play_turn_over)
next
  case False
  let ?pm = "place_mark_r (board_r e) row col (symbol (current_player_r e))"
  from assms False have "fst ?pm \<noteq> Inr True"
    by (auto simp: play_turn_def make_move_r_def Let_def swap_turn_r_def
        split: prod.splits sum.splits if_splits)
  then have "snd ?pm = board_r e" by (rule place_mark_r_fail_unchanged)
  with assms False show ?thesis
    by (auto simp: play_turn_def make_move_r_def Let_def split: prod.splits sum.splits if_splits)
qed

lemma play_turn_ok:
  assumes "fst (play_turn e row col)"
  shows "winner e = None" and "\<not> is_draw e"
    and "fst (place_mark_r (board_r e) row col (symbol (current_player_r e))) = Inr True"
    and "snd (play_turn e row col) =
          (let e1 = e\<lparr>board_r := snd (place_mark_r (board_r e) row col (symbol (current_player_r e)))\<rparr>
           in if check_winner e1 (symbol (current_player_r e))
              then e1\<lparr>winner := Some (current_player_r e)\<rparr>
              else if is_full_r (board_r e1) then e1\<lparr>is_draw := True\<rparr>
              else swap_turn_r e1)"
  using assms
  by (auto simp: play_turn_def make_move_r_def Let_def split: prod.splits sum.splits if_splits)

lemma play_turn_step:
  assumes inv: "engine_inv e" and ok: "fst (play_turn e row col)"
  shows "winner e = None" and "\<not> is_draw e"
    and "in_board row col"
    and "getitem2 (grid_r (board_r e)) row col = '' ''"
    and "symbol (current_player_r e) \<in> {''X'', ''O''}"
    and "\<And>s. s \<noteq> '' '' \<Longrightarrow>
           some_line (setitem2 (grid_r (board_r e)) row col (symbol (current_player_r e))) s
           \<Longrightarrow> s = symbol (current_player_r e)"
    and "snd (play_turn e row col) =
          (let gr' = setitem2 (grid_r (board_r e)) row col (symbol (current_player_r e));
               e1 = e\<lparr>board_r := \<lparr>size_r = 3, grid_r = gr'\<rparr>\<rparr>
           in if some_line gr' (symbol (current_player_r e))
              then e1\<lparr>winner := Some (current_player_r e)\<rparr>
              else if all_occupied '' '' gr' then e1\<lparr>is_draw := True\<rparr>
              else e1\<lparr>current_index := 1 - current_index e\<rparr>)"
proof -
  let ?sym = "symbol (current_player_r e)"
  let ?gr = "setitem2 (grid_r (board_r e)) row col ?sym"
  note pt = play_turn_ok[OF ok]
  show w: "winner e = None" and d: "\<not> is_draw e" by (rule pt(1), rule pt(2))
  from inv have wf: "wf_grid (grid_r (board_r e))" and sz: "size_r (board_r e) = 3"
    by (simp_all add: engine_inv_def)
  from pt(3) show ib: "in_board row col" and "getitem2 (grid_r (board_r e)) row col = '' ''"
    and "?sym \<in> {''X'', ''O''}"
    by (simp_all add: place_mark_r_ok_iff[OF sz])
  from inv w d have noline: "\<And>s. s \<noteq> '' '' \<Longrightarrow> \<not> some_line (grid_r (board_r e)) s"
    by (simp add: engine_inv_def)
  show "s = ?sym" if "s \<noteq> '' ''" "some_line ?gr s" for s
    using some_line_setitem2[OF wf ib that(2)] noline[OF that(1)] by simp
  have b': "snd (place_mark_r (board_r e) row col ?sym) = \<lparr>size_r = 3, grid_r = ?gr\<rparr>"
    using place_mark_r_ok_effect(1)[OF wf sz pt(3)] sz by simp
  have cw: "check_winner (e\<lparr>board_r := \<lparr>size_r = 3, grid_r = ?gr\<rparr>\<rparr>) ?sym = some_line ?gr ?sym"
    using check_winner_some_line[of "e\<lparr>board_r := \<lparr>size_r = 3, grid_r = ?gr\<rparr>\<rparr>" ?sym]
      wf_grid_setitem2[OF wf] by simp
  show "snd (play_turn e row col) =
          (let gr' = ?gr; e1 = e\<lparr>board_r := \<lparr>size_r = 3, grid_r = gr'\<rparr>\<rparr>
           in if some_line gr' ?sym
              then e1\<lparr>winner := Some (current_player_r e)\<rparr>
              else if all_occupied '' '' gr' then e1\<lparr>is_draw := True\<rparr>
              else e1\<lparr>current_index := 1 - current_index e\<rparr>)"
    unfolding pt(4) b' Let_def cw
    by (simp add: is_full_r_all_occupied swap_turn_r_def)
qed

lemma engine_inv_play_turn:
  assumes "engine_inv e"
  shows "engine_inv (snd (play_turn e row col))"
proof (cases "fst (play_turn e row col)")
  case False
  then show ?thesis using assms by (simp add: play_turn_fail)
next
  case True
  let ?sym = "symbol (current_player_r e)"
  let ?gr = "setitem2 (grid_r (board_r e)) row col ?sym"
  note st = play_turn_step[OF assms True]
  from assms have wf: "wf_grid ?gr" and idx: "current_index e = 0 \<or> current_index e = 1"
    by (simp_all add: engine_inv_def wf_grid_setitem2)
  from st(5) have ne: "?sym \<noteq> '' ''" by auto
  show ?thesis
  proof (cases "some_line ?gr ?sym")
    case True
    then show ?thesis
      unfolding st(7) using wf idx ne st(1,2)
      by (simp add: engine_inv_def Let_def current_player_r_def)
  next
    case False
    with st(6) have none: "\<And>s. s \<noteq> '' '' \<Longrightarrow> \<not> some_line ?gr s"
      by blast
    from idx have idx': "1 - current_index e = 0 \<or> 1 - current_index e = 1"
      by auto
    show ?thesis
      unfolding st(7) using wf idx idx' False none st(1,2)
      by (simp add: engine_inv_def Let_def is_full_r_all_occupied)
  qed
qed

lemma engine_inv_init:
  assumes "GameEngine_init p1 p2 = Inr e"
  shows "engine_inv e"
proof -
  from assms have e: "e = \<lparr>player_one = p1, player_two = p2, board_r = Board_r_init,
      current_index = 0, winner = None, is_draw = False\<rparr>"
    by (simp add: GameEngine_init_def)
  have "\<not> some_line (grid_r Board_r_init) s" if "s \<noteq> '' ''" for s
    using that by (auto simp: some_line_def Board_r_init_eq WIN_LINES_def line_complete_def getitem2_def)
  moreover have "\<not> is_full_r Board_r_init"
    by (simp add: is_full_r_def Board_r_init_eq)
  ultimately show ?thesis
    unfolding e using wf_Board_r_init by (simp add: engine_inv_def)
qed

lemma play_r_snoc: "play_r e (ms @ [(r, c)]) = snd (play_turn (play_r e ms) r c)"
  by (simp add: play_r_def)

lemma engine_inv_play_r: "engine_inv e \<Longrightarrow> engine_inv (play_r e ms)"
proof (induction ms rule: rev_induct)
  case Nil
  then show ?case by (simp add: play_r_def)
next
  case (snoc m ms)
  obtain r c where m: "m = (r, c)" by (cases m)
  from snoc show ?case unfolding m play_r_snoc by (simp add: engine_inv_play_turn)
qed

section \<open>Evaluating concrete games\<close>

lemma apply_move_eval:
  "apply_move g row col =
     (if state g \<noteq> IN_PROGRESS then (Inl GameAlreadyOver, g)
      else
        (case place_mark (board g) row col (symbol (current_player g)) of
           (Inl e, b') \<Rightarrow> (Inl e, g\<lparr>board := b'\<rparr>)
         | (Inr u, b') \<Rightarrow>
             (Inr (),
              (case first_line_winner (grid b') WIN_LINES of
                 Some w \<Rightarrow> g\<lparr>board := b', state := WIN, winner_symbol := Some w\<rparr>
               | None \<Rightarrow>
                   if is_full b' then g\<lparr>board := b', state := DRAW\<rparr>
                   else g\<lparr>board := b', turn_idx := turn_idx g XOR 1\<rparr>))))"
  by (simp add: apply_move_def make_move_def update_state_after_move_cases swap_turn_def Let_def
      split: prod.splits sum.splits option.splits)

lemmas game_eval =
  apply_move_eval place_mark_cases first_line_winner.simps WIN_LINES_def getitem2_def
  setitem2_def is_full_row_major row_major_def current_player_def

lemma play_Nil: "play g [] = g"
  by (simp add: play_def)

lemma play_Cons: "play g ((r, c) # ms) = play (snd (apply_move g r c)) ms"
  by (simp add: play_def)

lemma ex_win:
  "play \<lparr>board = Board_init, players = (\<lparr>name = ''Ann'', symbol = ''X''\<rparr>, \<lparr>name = ''Bob'', symbol = ''O''\<rparr>),
         turn_idx = 0, state = IN_PROGRESS, winner_symbol = None\<rparr>
     [(0,0),(1,0),(0,1),(1,1)] =
   \<lparr>board = \<lparr>grid = [[Some ''X'', Some ''X'', None], [Some ''O'', Some ''O'', None], [None, None, None]]\<rparr>,
    players = (\<lparr>name = ''Ann'', symbol = ''X''\<rparr>, \<lparr>name = ''Bob'', symbol = ''O''\<rparr>),
    turn_idx = 0, state = IN_PROGRESS, winner_symbol = None\<rparr>"
  by (simp add: play_Cons play_Nil grid_Board_init game_eval)

section \<open>Example games\<close>

lemma Game_init_game0: "Game_init player_x player_o None = Inr game0"
  by (simp add: Game_init_def game0_def player_x_def player_o_def)


lemma play_turn_eval:
  "play_turn e row col =
     (if winner e \<noteq> None \<or> is_draw e then (False, e)
      else
        (case place_mark_r (board_r e) row col (symbol (current_player_r e)) of
           (Inl x, b') \<Rightarrow> (False, e\<lparr>board_r := b'\<rparr>)
         | (Inr ok, b') \<Rightarrow>
             if \<not> ok then (False, e\<lparr>board_r := b'\<rparr>)
             else if check_winner (e\<lparr>board_r := b'\<rparr>) (symbol (current_player_r e))
             then (True, e\<lparr>board_r := b', winner := Some (current_player_r e)\<rparr>)
             else if is_full_r b' then (True, e\<lparr>board_r := b', is_draw := True\<rparr>)
             else (True, e\<lparr>board_r := b', current_index := 1 - current_index e\<rparr>)))"
  by (simp add: play_turn_def make_move_r_def swap_turn_r_def Let_def
      split: prod.splits sum.splits)

lemmas engine_eval =
  play_turn_eval place_mark_r_def check_winner_def range_py_3 getitem2_def setitem2_def
  is_full_r_def current_player_r_def

lemma play_r_Nil: "play_r e [] = e"
  by (simp add: play_r_def)

lemma play_r_Cons: "play_r e ((r, c) # ms) = play_r (snd (play_turn e r c)) ms"
  by (simp add: play_r_def)

lemma game_win_moves:
  "play game0 win_moves =
     \<lparr>board = \<lparr>grid = [[Some ''X'', Some ''X'', None], [Some ''O'', Some ''O'', None], [None, None, None]]\<rparr>,
      players = (player_x, player_o), turn_idx = 0, state = IN_PROGRESS, winner_symbol = None\<rparr>"
  by (simp add: win_moves_def game0_def player_x_def player_o_def play_Cons play_Nil
      grid_Board_init game_eval)

lemma game_won:
  "apply_move (play game0 win_moves) 0 2 =
     (Inr (),
      \<lparr>board = \<lparr>grid = [[Some ''X'', Some ''X'', Some ''X''], [Some ''O'', Some ''O'', None], [None, None, None]]\<rparr>,
       players = (player_x, player_o), turn_idx = 0, state = WIN, winner_symbol = Some ''X''\<rparr>)"
  unfolding game_win_moves
  by (simp add: player_x_def player_o_def game_eval)





lemma engine_draw_moves:
  "play_r engine0 draw_moves =
     \<lparr>player_one = player_1, player_two = computer,
      board_r = \<lparr>size_r = 3, grid_r = [[''X'', ''O'', ''X''], [''X'', ''O'', ''O''], [''O'', ''X'', '' '']]\<rparr>,
      current_index = 0, winner = None, is_draw = False\<rparr>"
  by (simp add: draw_moves_def engine0_def player_1_def computer_def play_r_Cons play_r_Nil
      Board_r_init_eq engine_eval)

lemma engine_drawn:
  "play_turn (play_r engine0 draw_moves) 2 2 =
     (True,
      \<lparr>player_one = player_1, player_two = computer,
       board_r = \<lparr>size_r = 3, grid_r = [[''X'', ''O'', ''X''], [''X'', ''O'', ''O''], [''O'', ''X'', ''X'']]\<rparr>,
       current_index = 0, winner = None, is_draw = True\<rparr>)"
  unfolding engine_draw_moves
  by (simp add: player_1_def computer_def engine_eval)

section \<open>Outcome of a move\<close>





section \<open>Terminal states\<close>

text \<open>
  Claim C2.  In every engine state whose status is Won or Draw, every call of
  \<^verbatim>\<open>apply_move\<close> raises the game-over error and every call of \<^verbatim>\<open>play_turn\<close> returns
  \<^verbatim>\<open>False\<close>, whatever the row and column, and the engine (board, status, winning symbol
  or winner, and turn index) is left as it was.
\<close>

theorem terminal_state_rejects_moves:
  "(state g = WIN \<or> state g = DRAW \<longrightarrow> apply_move g row col = (Inl GameAlreadyOver, g))
   \<and> (winner e \<noteq> None \<or> is_draw e \<longrightarrow> play_turn e row' col' = (False, e))"
  by (auto simp: apply_move_over play_turn_over)

theorem terminal_state_rejects_moves_witness:
  "state (snd (apply_move (play game0 win_moves) 0 2)) = WIN
   \<and> apply_move (snd (apply_move (play game0 win_moves) 0 2)) 2 2
       = (Inl GameAlreadyOver, snd (apply_move (play game0 win_moves) 0 2))
   \<and> is_draw (snd (play_turn (play_r engine0 draw_moves) 2 2))
   \<and> play_turn (snd (play_turn (play_r engine0 draw_moves) 2 2)) 1 7
       = (False, snd (play_turn (play_r engine0 draw_moves) 2 2))"
proof -
  have w: "state (snd (apply_move (play game0 win_moves) 0 2)) = WIN"
    and d: "is_draw (snd (play_turn (play_r engine0 draw_moves) 2 2))"
    by (simp_all add: game_won engine_drawn)
  from terminal_state_rejects_moves[of "snd (apply_move (play game0 win_moves) 0 2)" 2 2
      "snd (play_turn (play_r engine0 draw_moves) 2 2)" 1 7] w d
  show ?thesis by blast
qed

section \<open>The winner is the player to move\<close>


lemma play_append: "play g (ms @ ms') = play (play g ms) ms'"
  by (simp add: play_def)

lemma play_r_append: "play_r e (ms @ ms') = play_r (play_r e ms) ms'"
  by (simp add: play_r_def)


section \<open>Constructing an engine\<close>

lemma Game_init_cases:
  "Game_init px po bo =
     (if symbol px = ''X'' \<and> symbol po = ''O''
      then Inr \<lparr>board = (case bo of None \<Rightarrow> Board_init | Some b \<Rightarrow> b), players = (px, po),
                turn_idx = 0, state = IN_PROGRESS, winner_symbol = None\<rparr>
      else Inl InvalidPlayerSetup)"
  by (simp add: Game_init_def)

text \<open>
  Claim C5, as amended.  Constructing the multi-file \<^verbatim>\<open>Game\<close> raises the player-setup error
  exactly when the first player does not hold X or the second does not hold O; so it fails
  whenever the two players do not hold the complementary pair, in particular when both
  hold the same symbol, and it succeeds exactly when the first holds X and the second O.
  The single-script \<^verbatim>\<open>GameEngine\<close> has no such check: its construction succeeds for every
  two players.
\<close>

theorem engine_construction:
  "(Game_init px po bo = Inl InvalidPlayerSetup \<longleftrightarrow> symbol px \<noteq> ''X'' \<or> symbol po \<noteq> ''O'')
   \<and> ((\<exists>g. Game_init px po bo = Inr g) \<longleftrightarrow> symbol px = ''X'' \<and> symbol po = ''O'')
   \<and> ({symbol px, symbol po} \<noteq> {''X'', ''O''} \<longrightarrow> Game_init px po bo = Inl InvalidPlayerSetup)
   \<and> (symbol px = symbol po \<longrightarrow> Game_init px po bo = Inl InvalidPlayerSetup)
   \<and> GameEngine_init p1 p2 =
        Inr \<lparr>player_one = p1, player_two = p2, board_r = Board_r_init,
             current_index = 0, winner = None, is_draw = False\<rparr>"
  by (auto simp: Game_init_cases GameEngine_init_def)

theorem engine_construction_witness:
  "Game_init player_x player_x None = Inl InvalidPlayerSetup
   \<and> Game_init player_o player_x None = Inl InvalidPlayerSetup
   \<and> symbol player_x = ''X'' \<and> symbol player_o = ''O''
   \<and> Game_init player_x player_o None = Inr game0"
proof -
  have s: "symbol player_x = ''X''" "symbol player_o = ''O''"
    by (simp_all add: player_x_def player_o_def)
  from engine_construction[of player_x player_x None] s
  have 1: "Game_init player_x player_x None = Inl InvalidPlayerSetup" by simp
  from engine_construction[of player_o player_x None] s
  have 2: "Game_init player_o player_x None = Inl InvalidPlayerSetup" by simp
  from 1 2 s Game_init_game0 show ?thesis by simp
qed

text \<open>The single-script engine is constructed from two players that both hold X.\<close>

theorem engine_construction_counterexample:
  "Player_r_init ''Player 1'' ''X'' = Inr player_1
   \<and> Player_r_init ''Player 2'' ''X'' = Inr \<lparr>name = ''Player 2'', symbol = ''X''\<rparr>
   \<and> symbol player_1 = ''X''
   \<and> GameEngine_init player_1 \<lparr>name = ''Player 2'', symbol = ''X''\<rparr> =
        Inr \<lparr>player_one = player_1, player_two = \<lparr>name = ''Player 2'', symbol = ''X''\<rparr>,
             board_r = Board_r_init, current_index = 0, winner = None, is_draw = False\<rparr>"
  by (simp add: Player_r_init_def player_1_def GameEngine_init_def)

section \<open>Turn order\<close>

lemma players_apply_move: "players (snd (apply_move g row col)) = players g"
  by (simp add: apply_move_eval split: prod.splits sum.splits option.splits)

lemma players_play: "players (play g ms) = players g"
proof (induction ms rule: rev_induct)
  case Nil
  then show ?case by (simp add: play_Nil)
next
  case (snoc m ms)
  obtain r c where m: "m = (r, c)" by (cases m)
  from snoc show ?case unfolding m play_snoc by (simp add: players_apply_move)
qed

lemma seats_play_turn:
  "player_one (snd (play_turn e row col)) = player_one e"
  "player_two (snd (play_turn e row col)) = player_two e"
  by (simp_all add: play_turn_eval split: prod.splits sum.splits)

lemma seats_play_r:
  "player_one (play_r e ms) = player_one e \<and> player_two (play_r e ms) = player_two e"
proof (induction ms rule: rev_induct)
  case Nil
  then show ?case by (simp add: play_r_Nil)
next
  case (snoc m ms)
  obtain r c where m: "m = (r, c)" by (cases m)
  from snoc show ?case unfolding m play_r_snoc by (simp add: seats_play_turn)
qed

lemma apply_move_turn:
  assumes inv: "game_inv g" and am: "apply_move g row col = (Inr (), g')"
  shows "state g' = IN_PROGRESS \<Longrightarrow>
           turn_idx g' = 1 - turn_idx g \<and> current_player g' \<noteq> current_player g"
    and "state g' \<noteq> IN_PROGRESS \<Longrightarrow>
           turn_idx g' = turn_idx g \<and> current_player g' = current_player g"
proof -
  from am have ok: "fst (apply_move g row col) = Inr ()" and g': "g' = snd (apply_move g row col)"
    by simp_all
  note st = apply_move_step[OF inv ok]
  from inv have idx: "turn_idx g = 0 \<or> turn_idx g = 1"
    and ne: "fst (players g) \<noteq> snd (players g)"
    by (auto simp: game_inv_def)
  from idx have x: "turn_idx g XOR 1 = 1 - turn_idx g" by auto
  have cases: "g' = g\<lparr>board := board g', state := WIN,
        winner_symbol := Some (symbol (current_player g))\<rparr>
      \<or> g' = g\<lparr>board := board g', state := DRAW\<rparr>
      \<or> g' = g\<lparr>board := board g', turn_idx := turn_idx g XOR 1\<rparr>"
    unfolding g' st(5) by (simp add: Let_def)
  show "turn_idx g' = 1 - turn_idx g \<and> current_player g' \<noteq> current_player g"
    if "state g' = IN_PROGRESS"
  proof -
    from cases that have eq: "g' = g\<lparr>board := board g', turn_idx := turn_idx g XOR 1\<rparr>"
      by (metis GameState.distinct(1,3) Game.select_convs(4) Game.surjective Game.update_convs(1,4,5))
    have "turn_idx g' = 1 - turn_idx g" and "players g' = players g"
      by (subst eq, simp add: x)+
    with idx ne show ?thesis by (auto simp: current_player_def)
  qed
  show "turn_idx g' = turn_idx g \<and> current_player g' = current_player g"
    if "state g' \<noteq> IN_PROGRESS"
  proof -
    from cases that st(1) have "turn_idx g' = turn_idx g \<and> players g' = players g"
      by (metis Game.select_convs(2,3,4) Game.surjective Game.update_convs(1,3,4,5))
    then show ?thesis by (simp add: current_player_def)
  qed
qed

lemma play_turn_turn:
  assumes inv: "engine_inv e" and pt: "play_turn e row col = (True, e')"
  shows "winner e' = None \<and> \<not> is_draw e' \<Longrightarrow>
           current_index e' = 1 - current_index e
           \<and> current_player_r e' = (if current_index e = 0 then player_two e else player_one e)"
    and "winner e' \<noteq> None \<or> is_draw e' \<Longrightarrow>
           current_index e' = current_index e \<and> current_player_r e' = current_player_r e"
proof -
  let ?gr = "setitem2 (grid_r (board_r e)) row col (symbol (current_player_r e))"
  from pt have ok: "fst (play_turn e row col)" and e': "e' = snd (play_turn e row col)"
    by simp_all
  note st = play_turn_step[OF inv ok]
  from inv have idx: "current_index e = 0 \<or> current_index e = 1"
    by (simp add: engine_inv_def)
  show "current_index e' = 1 - current_index e
      \<and> current_player_r e' = (if current_index e = 0 then player_two e else player_one e)"
    if "winner e' = None \<and> \<not> is_draw e'"
  proof (cases "some_line ?gr (symbol (current_player_r e))")
    case True
    with that show ?thesis unfolding e' st(7) by (simp add: Let_def)
  next
    case False
    show ?thesis
    proof (cases "all_occupied '' '' ?gr")
      case True
      with False that show ?thesis unfolding e' st(7) by (simp add: Let_def)
    next
      case f: False
      with False idx show ?thesis
        unfolding e' st(7) by (auto simp: Let_def current_player_r_def)
    qed
  qed
  show "current_index e' = current_index e \<and> current_player_r e' = current_player_r e"
    if "winner e' \<noteq> None \<or> is_draw e'"
  proof (cases "some_line ?gr (symbol (current_player_r e))")
    case True
    then show ?thesis unfolding e' st(7) by (simp add: Let_def current_player_r_def)
  next
    case False
    show ?thesis
    proof (cases "all_occupied '' '' ?gr")
      case True
      with False show ?thesis unfolding e' st(7) by (simp add: Let_def current_player_r_def)
    next
      case f: False
      with False that st(1,2) show ?thesis
        unfolding e' st(7) by (simp add: Let_def)
    qed
  qed
qed

lemma create_console_game_seats:
  assumes "create_console_game n1 n2 vs = Inr e"
  shows "symbol (current_player_r e) = ''X'' \<and> symbol (player_two e) = ''O''"
  using assms
  by (auto simp: create_console_game_def Player_r_init_def GameEngine_init_def current_player_r_def
      split: if_splits option.splits)

text \<open>
  Claim C4, as amended.  In the initial engine state the first-seated player is the active
  player: \<^verbatim>\<open>player_x\<close> of the multi-file \<^verbatim>\<open>Game\<close>, who holds X because construction
  checks it, and \<^verbatim>\<open>player_one\<close> of the single-script \<^verbatim>\<open>GameEngine\<close>, whatever symbol that
  player holds (X when the engine is built by \<^verbatim>\<open>create_console_game\<close>).  In every state
  reached from a fresh engine: after a successful move that leaves the game in progress the
  active player is the other player; after a successful move that ends the game the
  active player is unchanged; and a failed move returns the failure of the placement (or
  the game-over error) and leaves the whole engine unchanged.
\<close>

theorem turn_order:
  assumes "Game_init px po None = Inr g0" and "GameEngine_init p1 p2 = Inr e0"
  shows
    "current_player g0 = px \<and> symbol px = ''X'' \<and> symbol po = ''O''
     \<and> current_player_r e0 = p1
     \<and> (create_console_game n1 n2 vs = Inr ec \<longrightarrow>
          symbol (current_player_r ec) = ''X'' \<and> symbol (player_two ec) = ''O'')
     \<and> (apply_move (play g0 ms) row col = (res, g') \<longrightarrow>
          (res = Inr () \<and> state g' = IN_PROGRESS \<longrightarrow>
             turn_idx g' = 1 - turn_idx (play g0 ms)
             \<and> current_player g' \<noteq> current_player (play g0 ms)
             \<and> players g' = (px, po))
        \<and> (res = Inr () \<and> state g' \<noteq> IN_PROGRESS \<longrightarrow>
             turn_idx g' = turn_idx (play g0 ms)
             \<and> current_player g' = current_player (play g0 ms))
        \<and> (res \<noteq> Inr () \<longrightarrow>
             g' = play g0 ms
             \<and> res = (if state (play g0 ms) \<noteq> IN_PROGRESS then Inl GameAlreadyOver
                      else fst (place_mark (board (play g0 ms)) row col
                                 (symbol (current_player (play g0 ms)))))))
     \<and> (play_turn (play_r e0 ms') row' col' = (ok, e') \<longrightarrow>
          (ok \<and> winner e' = None \<and> \<not> is_draw e' \<longrightarrow>
             current_index e' = 1 - current_index (play_r e0 ms')
             \<and> current_player_r e' = (if current_index (play_r e0 ms') = 0 then p2 else p1))
        \<and> (ok \<and> (winner e' \<noteq> None \<or> is_draw e') \<longrightarrow>
             current_index e' = current_index (play_r e0 ms')
             \<and> current_player_r e' = current_player_r (play_r e0 ms'))
        \<and> (\<not> ok \<longrightarrow> e' = play_r e0 ms'))"
proof -
  let ?g = "play g0 ms" and ?e = "play_r e0 ms'"
  have gi: "game_inv ?g"
    using assms(1) by (simp add: game_inv_init game_inv_play)
  have ei: "engine_inv ?e"
    using assms(2) by (simp add: engine_inv_init engine_inv_play_r)
  from assms(1) have g0: "current_player g0 = px \<and> symbol px = ''X'' \<and> symbol po = ''O''"
    and pl0: "players g0 = (px, po)"
    by (auto simp: Game_init_cases current_player_def split: if_splits)
  from assms(2) have e0: "current_player_r e0 = p1" and se0: "player_one e0 = p1" "player_two e0 = p2"
    by (auto simp: GameEngine_init_def current_player_r_def)
  have cc: "create_console_game n1 n2 vs = Inr ec \<longrightarrow>
      symbol (current_player_r ec) = ''X'' \<and> symbol (player_two ec) = ''O''"
    using create_console_game_seats by blast
  have pl: "players (snd (apply_move ?g row col)) = (px, po)"
    by (simp add: players_apply_move players_play pl0)
  have seats: "player_one ?e = p1" "player_two ?e = p2"
    using seats_play_r[of e0 ms'] se0 by simp_all
  have m: "apply_move ?g row col = (res, g') \<longrightarrow>
          (res = Inr () \<and> state g' = IN_PROGRESS \<longrightarrow>
             turn_idx g' = 1 - turn_idx ?g \<and> current_player g' \<noteq> current_player ?g
             \<and> players g' = (px, po))
        \<and> (res = Inr () \<and> state g' \<noteq> IN_PROGRESS \<longrightarrow>
             turn_idx g' = turn_idx ?g \<and> current_player g' = current_player ?g)
        \<and> (res \<noteq> Inr () \<longrightarrow>
             g' = ?g
             \<and> res = (if state ?g \<noteq> IN_PROGRESS then Inl GameAlreadyOver
                      else fst (place_mark (board ?g) row col (symbol (current_player ?g)))))"
  proof
    assume am: "apply_move ?g row col = (res, g')"
    then have r: "res = fst (apply_move ?g row col)" and g': "g' = snd (apply_move ?g row col)"
      by simp_all
    show "(res = Inr () \<and> state g' = IN_PROGRESS \<longrightarrow>
             turn_idx g' = 1 - turn_idx ?g \<and> current_player g' \<noteq> current_player ?g
             \<and> players g' = (px, po))
        \<and> (res = Inr () \<and> state g' \<noteq> IN_PROGRESS \<longrightarrow>
             turn_idx g' = turn_idx ?g \<and> current_player g' = current_player ?g)
        \<and> (res \<noteq> Inr () \<longrightarrow>
             g' = ?g
             \<and> res = (if state ?g \<noteq> IN_PROGRESS then Inl GameAlreadyOver
                      else fst (place_mark (board ?g) row col (symbol (current_player ?g)))))"
    proof (cases "res = Inr ()")
      case True
      with am have "apply_move ?g row col = (Inr (), g')" by simp
      from apply_move_turn[OF gi this] True pl g' show ?thesis by simp
    next
      case False
      with r have f: "fst (apply_move ?g row col) \<noteq> Inr ()" by simp
      from apply_move_fail[OF f] apply_move_fail_error[OF f] False r g' show ?thesis
        by simp
    qed
  qed
  have t: "play_turn ?e row' col' = (ok, e') \<longrightarrow>
          (ok \<and> winner e' = None \<and> \<not> is_draw e' \<longrightarrow>
             current_index e' = 1 - current_index ?e
             \<and> current_player_r e' = (if current_index ?e = 0 then p2 else p1))
        \<and> (ok \<and> (winner e' \<noteq> None \<or> is_draw e') \<longrightarrow>
             current_index e' = current_index ?e \<and> current_player_r e' = current_player_r ?e)
        \<and> (\<not> ok \<longrightarrow> e' = ?e)"
  proof
    assume pt: "play_turn ?e row' col' = (ok, e')"
    show "(ok \<and> winner e' = None \<and> \<not> is_draw e' \<longrightarrow>
             current_index e' = 1 - current_index ?e
             \<and> current_player_r e' = (if current_index ?e = 0 then p2 else p1))
        \<and> (ok \<and> (winner e' \<noteq> None \<or> is_draw e') \<longrightarrow>
             current_index e' = current_index ?e \<and> current_player_r e' = current_player_r ?e)
        \<and> (\<not> ok \<longrightarrow> e' = ?e)"
    proof (cases ok)
      case True
      with pt have "play_turn ?e row' col' = (True, e')" by simp
      from play_turn_turn[OF ei this] True seats show ?thesis by simp
    next
      case False
      with pt have "\<not> fst (play_turn ?e row' col')" and "e' = snd (play_turn ?e row' col')"
        by simp_all
      with play_turn_fail[of ?e row' col'] False show ?thesis by simp
    qed
  qed
  from g0 e0 cc m t show ?thesis by (intro conjI) (erule conjE | assumption)+
qed

end
